theory Spec2Isabelle
  imports Complex_Main "HOL-Library.Word"
begin

section \<open>Mini Aaron Flight: the simulation core of main.c\<close>

text \<open>
  The embedding follows \<^verbatim>\<open>src/main.c\<close>. The C type \<^verbatim>\<open>float\<close> is read as
  \<^typ>\<open>real\<close> with exact arithmetic: rounding of single-precision operations is not part
  of the model, and every concrete input used below keeps a wide margin around each
  comparison it decides. The tick counter of \<^verbatim>\<open>SDL_GetTicks\<close> is a 32-bit word, so the
  subtraction \<^verbatim>\<open>now - last\<close> wraps as in C. The calls of \<^verbatim>\<open>rand()\<close> read successive
  elements of a stream \<open>rnd\<close> of draws; the position in the stream is part of the state.
  Window, renderer and drawing calls are left out: they read the state and never write it.
\<close>

subsection \<open>Constants and data\<close>

record Obstacle =
  o_x :: real
  o_y :: real
  o_w :: real
  o_h :: real
  o_speed :: real
  o_type :: int

definition W :: int where "W = 960"
definition H :: int where "H = 540"
definition GROUND_Y :: int where "GROUND_Y = 460"
definition KM_TOTAL :: real where "KM_TOTAL = 12000"

text \<open>\<^verbatim>\<open>RAND_MAX\<close> of \<^verbatim>\<open>stdlib.h\<close>; the value is the one of musl (Emscripten) and glibc.\<close>

definition RAND_MAX :: nat where "RAND_MAX = 2147483647"

text \<open>The locals of \<^verbatim>\<open>main\<close> that are constant over the run.\<close>

definition px :: real where "px = real_of_int W * 0.22"
definition gravity :: real where "gravity = 0.38"
definition thrust :: real where "thrust = 0.8"
definition maxVy :: real where "maxVy = 7"
definition baseSpeed :: real where "baseSpeed = 4.2"

text \<open>
  The globals \<^verbatim>\<open>obs\<close>, \<^verbatim>\<open>obsCount\<close> and the mutable locals of \<^verbatim>\<open>main\<close>. The list
  \<open>obs\<close> holds the first \<^verbatim>\<open>obsCount\<close> entries of the array, so \<^verbatim>\<open>obsCount\<close> is its
  length; \<open>rpos\<close> counts the calls of \<^verbatim>\<open>rand()\<close> made so far.
\<close>

record game =
  obs :: "Obstacle list"
  rpos :: nat
  py :: real
  vy :: real
  holding :: bool
  running :: bool
  victory :: bool
  gameOver :: bool
  kmLeft :: real
  difficulty :: real
  spawnMs :: real
  spawnTimer :: real
  last_tick :: "32 word"

datatype keysym = SDLK_SPACE | SDLK_UP | SDLK_RETURN | SDLK_other

datatype event =
    SDL_QUIT
  | SDL_KEYDOWN keysym
  | SDL_KEYUP keysym
  | SDL_MOUSEBUTTONDOWN
  | SDL_MOUSEBUTTONUP
  | SDL_other

subsection \<open>addObstacle\<close>

definition addObstacle :: "(nat \<Rightarrow> nat) \<Rightarrow> real \<Rightarrow> game \<Rightarrow> game" where
  "addObstacle rnd speed g =
     (if length (obs g) \<ge> 128 then g
      else
        let k = rpos g;
            r = real (rnd k) / real RAND_MAX
        in
          if r < 0.55 then
            let w = 90 + rnd (k + 1) mod 80;
                h = 50 + rnd (k + 2) mod 30;
                y = 60 + rnd (k + 3) mod 240;
                x = real_of_int W + 40 + real (rnd (k + 4) mod 120)
            in g\<lparr>obs := obs g @
                    [\<lparr>o_x = x, o_y = real y, o_w = real w, o_h = real h,
                      o_speed = speed * 1.0, o_type = 0\<rparr>],
                  rpos := k + 5\<rparr>
          else if r < 0.85 then
            let y = 100 + rnd (k + 1) mod 260;
                x = real_of_int W + 40 + real (rnd (k + 2) mod 120)
            in g\<lparr>obs := obs g @
                    [\<lparr>o_x = x, o_y = real y, o_w = 44, o_h = 28,
                      o_speed = speed * 1.35, o_type = 1\<rparr>],
                  rpos := k + 3\<rparr>
          else
            let h = real (120 + rnd (k + 1) mod 120);
                top = (rnd (k + 2) mod 2 = 0);
                y = (if top then 40 else real_of_int GROUND_Y - h);
                x = real_of_int W + 40 + real (rnd (k + 3) mod 120)
            in g\<lparr>obs := obs g @
                    [\<lparr>o_x = x, o_y = y, o_w = 50, o_h = h,
                      o_speed = speed * 1.1, o_type = 2\<rparr>],
                  rpos := k + 4\<rparr>)"

subsection \<open>hit\<close>

definition hit :: "real \<Rightarrow> real \<Rightarrow> real \<Rightarrow> real \<Rightarrow> Obstacle \<Rightarrow> bool" where
  "hit ax ay aw ah b =
     (let shrink = 0.8;
          aox = ax - (aw * (1 - shrink) / 2);
          aoy = ay - (ah * (1 - shrink) / 2);
          aow = aw * shrink;
          aoh = ah * shrink
      in aox < o_x b + o_w b \<and> aox + aow > o_x b \<and> aoy < o_y b + o_h b \<and> aoy + aoh > o_y b)"

subsection \<open>The frame loop of main\<close>

definition init :: "32 word \<Rightarrow> game" where
  "init t0 =
     \<lparr>obs = [], rpos = 0,
      py = real_of_int H * 0.5, vy = 0.0,
      holding = False, running = True, victory = False, gameOver = False,
      kmLeft = KM_TOTAL, difficulty = 1.0, spawnMs = 1100.0, spawnTimer = 0.0,
      last_tick = t0\<rparr>"

text \<open>The body of the \<^verbatim>\<open>SDL_PollEvent\<close> loop, for one event.\<close>

fun handle_event :: "event \<Rightarrow> game \<Rightarrow> game" where
  "handle_event SDL_QUIT g = g\<lparr>running := False\<rparr>"
| "handle_event (SDL_KEYDOWN k) g =
     (let g1 = (if k = SDLK_SPACE \<or> k = SDLK_UP then g\<lparr>holding := True\<rparr> else g)
      in if k = SDLK_RETURN \<and> (gameOver g1 \<or> victory g1)
         then g1\<lparr>obs := [], py := real_of_int H * 0.5, vy := 0, kmLeft := KM_TOTAL,
                 difficulty := 1.0, spawnMs := 1100.0, spawnTimer := 0.0,
                 victory := False, gameOver := False\<rparr>
         else g1)"
| "handle_event (SDL_KEYUP k) g =
     (if k = SDLK_SPACE \<or> k = SDLK_UP then g\<lparr>holding := False\<rparr> else g)"
| "handle_event SDL_MOUSEBUTTONDOWN g = g\<lparr>holding := True\<rparr>"
| "handle_event SDL_MOUSEBUTTONUP g = g\<lparr>holding := False\<rparr>"
| "handle_event SDL_other g = g"

fun poll_events :: "event list \<Rightarrow> game \<Rightarrow> game" where
  "poll_events [] g = g"
| "poll_events (e # es) g = poll_events es (handle_event e g)"

text \<open>
  The block guarded by \<^verbatim>\<open>!gameOver && !victory\<close>, phase by phase in the order of the
  source. \<open>dtms\<close> is the raw elapsed time, \<open>dt\<close> the clamped physics step and \<open>dts\<close> the
  elapsed seconds.
\<close>

definition difficulty_phase :: "real \<Rightarrow> game \<Rightarrow> game" where
  "difficulty_phase dtms g =
     (let d = difficulty g + 0.00045 * dtms
      in g\<lparr>difficulty := d, spawnMs := max 580.0 (1100.0 - (d - 1.0) * 160.0)\<rparr>)"

definition worldSpeed :: "game \<Rightarrow> real" where
  "worldSpeed g = baseSpeed * (1.0 + (difficulty g - 1.0) * 0.35)"

definition physics_phase :: "real \<Rightarrow> game \<Rightarrow> game" where
  "physics_phase dt g =
     (let v1 = vy g + gravity * dt;
          v2 = (if holding g then v1 - thrust * dt else v1);
          v3 = (if v2 > maxVy then maxVy else v2);
          v4 = (if v3 < - maxVy then - maxVy else v3);
          p1 = py g + v4 * 3.2;
          p2 = (if p1 < 60 then 60 else p1);
          p3 = (if p2 > real_of_int (GROUND_Y - 20) then real_of_int (GROUND_Y - 20) else p2)
      in g\<lparr>vy := v4, py := p3\<rparr>)"

definition spawn_phase :: "(nat \<Rightarrow> nat) \<Rightarrow> real \<Rightarrow> game \<Rightarrow> game" where
  "spawn_phase rnd dtms g =
     (let g1 = g\<lparr>spawnTimer := spawnTimer g + dtms\<rparr>
      in if spawnTimer g1 \<ge> spawnMs g1
         then addObstacle rnd (worldSpeed g1) (g1\<lparr>spawnTimer := 0.0\<rparr>)
         else g1)"

fun advance :: "Obstacle list \<Rightarrow> Obstacle list" where
  "advance [] = []"
| "advance (b # bs) = b\<lparr>o_x := o_x b - o_speed b * 3.2\<rparr> # advance bs"

fun cull :: "Obstacle list \<Rightarrow> Obstacle list" where
  "cull [] = []"
| "cull (b # bs) = (if o_x b + o_w b > - 10 then b # cull bs else cull bs)"

fun any_hit :: "real \<Rightarrow> Obstacle list \<Rightarrow> bool" where
  "any_hit p [] = False"
| "any_hit p (b # bs) = (if hit (px - 30) (p - 18) 60 36 b then True else any_hit p bs)"

definition collide_phase :: "game \<Rightarrow> game" where
  "collide_phase g = (if any_hit (py g) (obs g) then g\<lparr>gameOver := True\<rparr> else g)"

definition progress_phase :: "real \<Rightarrow> game \<Rightarrow> game" where
  "progress_phase dts g =
     (let startSpd = 120.0; endSpd = 160.0;
          prog = (KM_TOTAL - kmLeft g) / KM_TOTAL;
          t = prog * prog * (3 - 2 * prog);
          kmPerSec = startSpd + (endSpd - startSpd) * t;
          km = kmLeft g - kmPerSec * dts
      in if km \<le> 0 then g\<lparr>kmLeft := 0, victory := True\<rparr> else g\<lparr>kmLeft := km\<rparr>)"

definition tick :: "(nat \<Rightarrow> nat) \<Rightarrow> real \<Rightarrow> game \<Rightarrow> game" where
  "tick rnd dtms g =
     (let dt = min 48.0 dtms / 16.6667;
          dts = dtms / 1000.0
      in if \<not> gameOver g \<and> \<not> victory g
         then
           let g1 = difficulty_phase dtms g;
               g2 = physics_phase dt g1;
               g3 = spawn_phase rnd dtms g2;
               g4 = g3\<lparr>obs := advance (obs g3)\<rparr>;
               g5 = g4\<lparr>obs := cull (obs g4)\<rparr>;
               g6 = collide_phase g5
           in progress_phase dts g6
         else g)"

text \<open>One pass of the \<^verbatim>\<open>while (running)\<close> loop: the events, the clock, the tick.\<close>

definition frame :: "(nat \<Rightarrow> nat) \<Rightarrow> event list \<times> 32 word \<Rightarrow> game \<Rightarrow> game" where
  "frame rnd inp g =
     (let g1 = poll_events (fst inp) g;
          now = snd inp;
          dtms = real (unat (now - last_tick g1))
      in tick rnd dtms (g1\<lparr>last_tick := now\<rparr>))"

text \<open>The loop over a finite sequence of frames; it stops once \<open>running\<close> is cleared.\<close>

fun run :: "(nat \<Rightarrow> nat) \<Rightarrow> (event list \<times> 32 word) list \<Rightarrow> game \<Rightarrow> game" where
  "run rnd [] g = g"
| "run rnd (f # fs) g = (if running g then run rnd fs (frame rnd f g) else g)"

text \<open>The progress fraction drawn by the progress bar.\<close>

definition progress :: "game \<Rightarrow> real" where
  "progress g = (KM_TOTAL - kmLeft g) / KM_TOTAL"

subsection \<open>The specification's collision box\<close>

text \<open>
  The hitbox as the specification words it: 80 percent of the visual box in each direction,
  centred in it, tested for strict overlap with the obstacle's own box.
\<close>

definition collides_spec :: "real \<Rightarrow> real \<Rightarrow> real \<Rightarrow> real \<Rightarrow> Obstacle \<Rightarrow> bool" where
  "collides_spec ax ay aw ah b =
     (let left = ax + 0.1 * aw; top = ay + 0.1 * ah;
          right = left + 0.8 * aw; bottom = top + 0.8 * ah
      in left < o_x b + o_w b \<and> right > o_x b \<and> top < o_y b + o_h b \<and> bottom > o_y b)"

subsection \<open>Invariants of the session\<close>

text \<open>The spawn interval is the clamped linear function of the difficulty.\<close>

definition spawn_inv :: "game \<Rightarrow> bool" where
  "spawn_inv g \<longleftrightarrow>
     spawnMs g = max 580 (1100 - (difficulty g - 1) * 160) \<and> 1 \<le> difficulty g"

text \<open>The remaining distance stays in range and is zero once the journey is completed.\<close>

definition km_inv :: "game \<Rightarrow> bool" where
  "km_inv g \<longleftrightarrow> 0 \<le> kmLeft g \<and> kmLeft g \<le> KM_TOTAL \<and> (\<not> victory g \<or> kmLeft g = 0)"

subsection \<open>Concrete inputs\<close>

text \<open>A stream whose draws are all zero: every obstacle is the smallest cloud at the top.\<close>

definition rnd_zero :: "nat \<Rightarrow> nat" where
  "rnd_zero i = 0"

text \<open>A session whose store is full.\<close>

definition full_store :: game where
  "full_store = (init 0)\<lparr>obs := replicate 128
     \<lparr>o_x = 500, o_y = 100, o_w = 44, o_h = 28, o_speed = 5, o_type = 1\<rparr>\<rparr>"

text \<open>A crashed session in the middle of the journey.\<close>

definition crashed_game :: game where
  "crashed_game = (init 0)\<lparr>gameOver := True, kmLeft := 5000, py := 100, vy := 3,
     difficulty := 2, spawnMs := 940, spawnTimer := 17,
     obs := [\<lparr>o_x = 200, o_y = 90, o_w = 44, o_h = 28, o_speed = 5, o_type = 1\<rparr>]\<rparr>"

text \<open>The player pressed against the upper bound of the band, still rising at full speed.\<close>

definition pinned_game :: game where
  "pinned_game = (init 0)\<lparr>py := 60, vy := - 7, holding := True\<rparr>"

text \<open>Three frames with thrust pressed and released, and no Return key.\<close>

definition quiet_frames :: "(event list \<times> 32 word) list" where
  "quiet_frames = [([], 16), ([SDL_KEYDOWN SDLK_SPACE], 33), ([SDL_KEYUP SDLK_SPACE], 2000)]"

text \<open>A session one unit of distance before the end, and a single frame of 120 seconds.\<close>

definition near_finish :: game where
  "near_finish = (init 0)\<lparr>kmLeft := 1\<rparr>"

definition long_frame :: "(event list \<times> 32 word) list" where
  "long_frame = [([], 120000)]"

text \<open>A bird that lies wholly to the left of the player's visual box at the initial height.\<close>

definition bird_behind :: Obstacle where
  "bird_behind = \<lparr>o_x = 135, o_y = 250, o_w = 44, o_h = 28, o_speed = 5.67, o_type = 1\<rparr>"

text \<open>
  A run in which the tab stalls twice for 90 seconds. The first draw selects a bird
  (\<open>1503238553 / RAND_MAX\<close> is about 0.7), the second puts it at height 260;
  \<open>stalled_1\<close> and \<open>stalled_2\<close> are the states after the first and the second frame.
\<close>

definition rnd_bird :: "nat \<Rightarrow> nat" where
  "rnd_bird i = (if i = 0 then 1503238553 else if i = 1 then 160 else 0)"

definition stalled_frames :: "(event list \<times> 32 word) list" where
  "stalled_frames = [([], 90000), ([], 90001), ([], 180001)]"

definition stalled_1 :: game where
  "stalled_1 =
     \<lparr>obs = [\<lparr>o_x = 905831 / 1250, o_y = 260, o_w = 44, o_h = 28,
               o_speed = 344169 / 4000, o_type = 1\<rparr>],
      rpos = 3, py = 45583770 / 166667, vy = 182400 / 166667,
      holding = False, running = True, victory = False, gameOver = False,
      kmLeft = 1200, difficulty = 83 / 2, spawnMs = 580, spawnTimer = 0,
      last_tick = 90000\<rparr>"

definition stalled_2 :: game where
  "stalled_2 =
     \<lparr>obs = [\<lparr>o_x = 280831 / 625, o_y = 260, o_w = 44, o_h = 28,
               o_speed = 344169 / 4000, o_type = 1\<rparr>],
      rpos = 3, py = 46179610 / 166667, vy = 186200 / 166667,
      holding = False, running = True, victory = False, gameOver = False,
      kmLeft = 7499007 / 6250, difficulty = 830009 / 20000, spawnMs = 580,
      spawnTimer = 1, last_tick = 90001\<rparr>"

text \<open>Streams of draws selecting a second bird and a storm column at either edge.\<close>

definition rnd_bird_b :: "nat \<Rightarrow> nat" where
  "rnd_bird_b i = (if i = 0 then 1503238553 else 1000 + i)"

definition rnd_storm_top :: "nat \<Rightarrow> nat" where
  "rnd_storm_top i = (if i = 0 then 2147483647 else 0)"

definition rnd_storm_bottom :: "nat \<Rightarrow> nat" where
  "rnd_storm_bottom i = (if i = 0 then 2147483647 else if i = 1 then 50 else if i = 2 then 1 else 0)"

section \<open>Auxiliary facts\<close>

lemmas consts_defs = W_def H_def GROUND_Y_def KM_TOTAL_def RAND_MAX_def gravity_def thrust_def
  maxVy_def baseSpeed_def px_def

lemmas phase_defs = difficulty_phase_def physics_phase_def spawn_phase_def collide_phase_def
  progress_phase_def worldSpeed_def

subsection \<open>Which fields a phase leaves alone\<close>

lemma addObstacle_fields:
  "py (addObstacle rnd speed g) = py g"
  "vy (addObstacle rnd speed g) = vy g"
  "holding (addObstacle rnd speed g) = holding g"
  "running (addObstacle rnd speed g) = running g"
  "victory (addObstacle rnd speed g) = victory g"
  "gameOver (addObstacle rnd speed g) = gameOver g"
  "kmLeft (addObstacle rnd speed g) = kmLeft g"
  "difficulty (addObstacle rnd speed g) = difficulty g"
  "spawnMs (addObstacle rnd speed g) = spawnMs g"
  "spawnTimer (addObstacle rnd speed g) = spawnTimer g"
  "last_tick (addObstacle rnd speed g) = last_tick g"
  by (simp_all add: addObstacle_def Let_def)

lemma progress_phase_fields:
  "obs (progress_phase dts g) = obs g"
  "rpos (progress_phase dts g) = rpos g"
  "py (progress_phase dts g) = py g"
  "vy (progress_phase dts g) = vy g"
  "holding (progress_phase dts g) = holding g"
  "running (progress_phase dts g) = running g"
  "gameOver (progress_phase dts g) = gameOver g"
  "difficulty (progress_phase dts g) = difficulty g"
  "spawnMs (progress_phase dts g) = spawnMs g"
  "spawnTimer (progress_phase dts g) = spawnTimer g"
  "last_tick (progress_phase dts g) = last_tick g"
  by (simp_all add: progress_phase_def Let_def)

lemma collide_phase_fields:
  "obs (collide_phase g) = obs g"
  "rpos (collide_phase g) = rpos g"
  "py (collide_phase g) = py g"
  "vy (collide_phase g) = vy g"
  "holding (collide_phase g) = holding g"
  "running (collide_phase g) = running g"
  "victory (collide_phase g) = victory g"
  "kmLeft (collide_phase g) = kmLeft g"
  "difficulty (collide_phase g) = difficulty g"
  "spawnMs (collide_phase g) = spawnMs g"
  "spawnTimer (collide_phase g) = spawnTimer g"
  "last_tick (collide_phase g) = last_tick g"
  by (simp_all add: collide_phase_def)

lemma spawn_phase_fields:
  "py (spawn_phase rnd dtms g) = py g"
  "vy (spawn_phase rnd dtms g) = vy g"
  "holding (spawn_phase rnd dtms g) = holding g"
  "running (spawn_phase rnd dtms g) = running g"
  "victory (spawn_phase rnd dtms g) = victory g"
  "gameOver (spawn_phase rnd dtms g) = gameOver g"
  "kmLeft (spawn_phase rnd dtms g) = kmLeft g"
  "difficulty (spawn_phase rnd dtms g) = difficulty g"
  "spawnMs (spawn_phase rnd dtms g) = spawnMs g"
  "last_tick (spawn_phase rnd dtms g) = last_tick g"
  by (simp_all add: spawn_phase_def Let_def addObstacle_fields)

lemma physics_phase_fields:
  "obs (physics_phase dt g) = obs g"
  "rpos (physics_phase dt g) = rpos g"
  "holding (physics_phase dt g) = holding g"
  "running (physics_phase dt g) = running g"
  "victory (physics_phase dt g) = victory g"
  "gameOver (physics_phase dt g) = gameOver g"
  "kmLeft (physics_phase dt g) = kmLeft g"
  "difficulty (physics_phase dt g) = difficulty g"
  "spawnMs (physics_phase dt g) = spawnMs g"
  "spawnTimer (physics_phase dt g) = spawnTimer g"
  "last_tick (physics_phase dt g) = last_tick g"
  by (simp_all add: physics_phase_def Let_def)

lemma difficulty_phase_fields:
  "obs (difficulty_phase dtms g) = obs g"
  "rpos (difficulty_phase dtms g) = rpos g"
  "py (difficulty_phase dtms g) = py g"
  "vy (difficulty_phase dtms g) = vy g"
  "holding (difficulty_phase dtms g) = holding g"
  "running (difficulty_phase dtms g) = running g"
  "victory (difficulty_phase dtms g) = victory g"
  "gameOver (difficulty_phase dtms g) = gameOver g"
  "kmLeft (difficulty_phase dtms g) = kmLeft g"
  "spawnTimer (difficulty_phase dtms g) = spawnTimer g"
  "last_tick (difficulty_phase dtms g) = last_tick g"
  by (simp_all add: difficulty_phase_def Let_def)

lemmas phase_fields = progress_phase_fields collide_phase_fields spawn_phase_fields
  physics_phase_fields difficulty_phase_fields

subsection \<open>The tick, split by session state\<close>

lemma tick_inactive: "gameOver g \<or> victory g \<Longrightarrow> tick rnd dtms g = g"
  by (auto simp: tick_def Let_def)

lemma tick_active:
  "\<not> gameOver g \<Longrightarrow> \<not> victory g \<Longrightarrow>
   tick rnd dtms g =
     progress_phase (dtms / 1000)
       (collide_phase
         ((spawn_phase rnd dtms (physics_phase (min 48 dtms / 16.6667) (difficulty_phase dtms g)))
            \<lparr>obs := cull (advance (obs (spawn_phase rnd dtms
                 (physics_phase (min 48 dtms / 16.6667) (difficulty_phase dtms g)))))\<rparr>))"
  by (simp add: tick_def Let_def)

lemma run_append: "run rnd (fs @ hs) g = run rnd hs (run rnd fs g)"
proof (induction fs arbitrary: g)
  case Nil
  show ?case by simp
next
  case (Cons f fs)
  show ?case
  proof (cases "running g")
    case True
    then show ?thesis by (simp add: Cons.IH)
  next
    case False
    then show ?thesis by (cases hs) simp_all
  qed
qed

subsection \<open>The size of the obstacle store\<close>

lemma length_advance: "length (advance bs) = length bs"
  by (induction bs) simp_all

lemma length_cull: "length (cull bs) \<le> length bs"
  by (induction bs) simp_all

lemma length_addObstacle:
  "length (obs (addObstacle rnd speed g)) =
     (if length (obs g) \<ge> 128 then length (obs g) else length (obs g) + 1)"
  by (simp add: addObstacle_def Let_def)

lemma length_spawn_phase:
  "length (obs (spawn_phase rnd dtms g)) \<le> Suc (length (obs g))"
  "length (obs g) \<le> 128 \<Longrightarrow> length (obs (spawn_phase rnd dtms g)) \<le> 128"
  by (simp_all add: spawn_phase_def Let_def length_addObstacle)

lemma length_tick: "length (obs g) \<le> 128 \<Longrightarrow> length (obs (tick rnd dtms g)) \<le> 128"
proof (cases "gameOver g \<or> victory g")
  case True
  assume "length (obs g) \<le> 128"
  with True show ?thesis by (simp add: tick_inactive)
next
  case False
  assume le: "length (obs g) \<le> 128"
  let ?g3 = "spawn_phase rnd dtms (physics_phase (min 48 dtms / 16.6667) (difficulty_phase dtms g))"
  have "length (obs ?g3) \<le> 128"
    using le by (intro length_spawn_phase(2)) (simp add: phase_fields)
  moreover have "length (cull (advance (obs ?g3))) \<le> length (obs ?g3)"
    using length_cull [of "advance (obs ?g3)"] by (simp add: length_advance)
  ultimately show ?thesis
    using False by (simp add: tick_active phase_fields)
qed

lemma length_handle_event: "length (obs (handle_event e g)) \<le> length (obs g)"
  by (cases e) (simp_all add: Let_def)

lemma length_poll_events: "length (obs (poll_events es g)) \<le> length (obs g)"
proof (induction es arbitrary: g)
  case Nil
  show ?case by simp
next
  case (Cons e es)
  have "length (obs (poll_events es (handle_event e g))) \<le> length (obs (handle_event e g))"
    by (rule Cons.IH)
  also have "\<dots> \<le> length (obs g)" by (rule length_handle_event)
  finally show ?case by simp
qed

lemma length_frame: "length (obs g) \<le> 128 \<Longrightarrow> length (obs (frame rnd f g)) \<le> 128"
  unfolding frame_def Let_def
  using length_poll_events [of "fst f" g] by (intro length_tick) simp

lemma length_run: "length (obs g) \<le> 128 \<Longrightarrow> length (obs (run rnd fs g)) \<le> 128"
  by (induction fs arbitrary: g) (simp_all add: length_frame)

subsection \<open>The player\<close>

lemma py_physics_phase:
  "60 \<le> py (physics_phase dt g)" "py (physics_phase dt g) \<le> 440"
  by (simp_all add: physics_phase_def Let_def GROUND_Y_def)

lemma vy_physics_phase:
  "vy (physics_phase dt g) =
     max (- 7) (min 7 (vy g + 0.38 * dt - (if holding g then 0.8 * dt else 0)))"
  by (simp add: physics_phase_def Let_def gravity_def thrust_def maxVy_def)

lemma tick_player:
  "\<not> gameOver g \<Longrightarrow> \<not> victory g \<Longrightarrow>
     py (tick rnd dtms g) = py (physics_phase (min 48 dtms / 16.6667) g) \<and>
     vy (tick rnd dtms g) = vy (physics_phase (min 48 dtms / 16.6667) g)"
  by (simp add: tick_active phase_fields) (simp add: physics_phase_def Let_def phase_fields)

lemma py_tick: "60 \<le> py g \<and> py g \<le> 440 \<Longrightarrow> 60 \<le> py (tick rnd dtms g) \<and> py (tick rnd dtms g) \<le> 440"
  by (cases "gameOver g \<or> victory g") (auto simp: tick_inactive tick_player py_physics_phase)

lemma py_handle_event:
  "60 \<le> py g \<and> py g \<le> 440 \<Longrightarrow> 60 \<le> py (handle_event e g) \<and> py (handle_event e g) \<le> 440"
  by (cases e) (simp_all add: Let_def H_def)

lemma py_poll_events:
  "60 \<le> py g \<and> py g \<le> 440 \<Longrightarrow> 60 \<le> py (poll_events es g) \<and> py (poll_events es g) \<le> 440"
proof (induction es arbitrary: g)
  case Nil
  then show ?case by simp
next
  case (Cons e es)
  from Cons.prems have "60 \<le> py (handle_event e g) \<and> py (handle_event e g) \<le> 440"
    by (rule py_handle_event)
  then show ?case using Cons.IH by simp
qed

lemma py_frame:
  assumes "60 \<le> py g \<and> py g \<le> 440"
  shows "60 \<le> py (frame rnd f g) \<and> py (frame rnd f g) \<le> 440"
proof -
  have "60 \<le> py (poll_events (fst f) g) \<and> py (poll_events (fst f) g) \<le> 440"
    using assms by (rule py_poll_events)
  then show ?thesis
    unfolding frame_def Let_def by (intro py_tick) simp
qed

lemma py_run:
  "60 \<le> py g \<and> py g \<le> 440 \<Longrightarrow> 60 \<le> py (run rnd fs g) \<and> py (run rnd fs g) \<le> 440"
proof (induction fs arbitrary: g)
  case Nil
  then show ?case by simp
next
  case (Cons f fs)
  show ?case
  proof (cases "running g")
    case True
    have "60 \<le> py (frame rnd f g) \<and> py (frame rnd f g) \<le> 440"
      using Cons.prems by (rule py_frame)
    then have "60 \<le> py (run rnd fs (frame rnd f g)) \<and> py (run rnd fs (frame rnd f g)) \<le> 440"
      by (rule Cons.IH)
    with True show ?thesis by simp
  next
    case False
    with Cons.prems show ?thesis by simp
  qed
qed

subsection \<open>Difficulty and spawn interval\<close>

lemma tick_difficulty:
  "\<not> gameOver g \<Longrightarrow> \<not> victory g \<Longrightarrow>
     difficulty (tick rnd dtms g) = difficulty g + 0.00045 * dtms \<and>
     spawnMs (tick rnd dtms g) = max 580 (1100 - (difficulty g + 0.00045 * dtms - 1) * 160)"
  by (simp add: tick_active phase_fields) (simp add: difficulty_phase_def Let_def)

lemma spawn_inv_tick: "spawn_inv g \<Longrightarrow> 0 \<le> dtms \<Longrightarrow> spawn_inv (tick rnd dtms g)"
  by (cases "gameOver g \<or> victory g")
     (auto simp: tick_inactive tick_difficulty spawn_inv_def)

lemma difficulty_tick_mono: "0 \<le> dtms \<Longrightarrow> difficulty g \<le> difficulty (tick rnd dtms g)"
  by (cases "gameOver g \<or> victory g") (auto simp: tick_inactive tick_difficulty)

lemma spawn_inv_handle_event: "spawn_inv g \<Longrightarrow> spawn_inv (handle_event e g)"
  by (cases e) (auto simp: Let_def spawn_inv_def)

lemma spawn_inv_poll_events: "spawn_inv g \<Longrightarrow> spawn_inv (poll_events es g)"
  by (induction es arbitrary: g) (simp_all add: spawn_inv_handle_event)

lemma difficulty_handle_event:
  "e \<noteq> SDL_KEYDOWN SDLK_RETURN \<Longrightarrow> difficulty (handle_event e g) = difficulty g"
  by (cases e) (auto simp: Let_def)

lemma difficulty_poll_events:
  "SDL_KEYDOWN SDLK_RETURN \<notin> set es \<Longrightarrow> difficulty (poll_events es g) = difficulty g"
  by (induction es arbitrary: g) (auto simp: difficulty_handle_event)

lemma dtms_nonneg: "0 \<le> real (unat (w :: 32 word))"
  by (rule of_nat_0_le_iff)

lemma spawn_inv_frame:
  assumes "spawn_inv g"
  shows "spawn_inv (frame rnd f g)"
proof -
  have "spawn_inv (poll_events (fst f) g)"
    using assms by (rule spawn_inv_poll_events)
  then have "spawn_inv ((poll_events (fst f) g)\<lparr>last_tick := snd f\<rparr>)"
    by (simp add: spawn_inv_def)
  then show ?thesis
    unfolding frame_def Let_def by (rule spawn_inv_tick) (rule dtms_nonneg)
qed

lemma spawn_inv_run: "spawn_inv g \<Longrightarrow> spawn_inv (run rnd fs g)"
  by (induction fs arbitrary: g) (simp_all add: spawn_inv_frame)

lemma difficulty_frame_mono:
  "SDL_KEYDOWN SDLK_RETURN \<notin> set (fst f) \<Longrightarrow> difficulty g \<le> difficulty (frame rnd f g)"
  unfolding frame_def Let_def
  using difficulty_tick_mono [OF dtms_nonneg, of "(poll_events (fst f) g)\<lparr>last_tick := snd f\<rparr>"
      rnd "snd f - last_tick (poll_events (fst f) g)"]
  by (simp add: difficulty_poll_events)

lemma difficulty_run_mono:
  "\<forall>f\<in>set hs. SDL_KEYDOWN SDLK_RETURN \<notin> set (fst f) \<Longrightarrow> difficulty g \<le> difficulty (run rnd hs g)"
proof (induction hs arbitrary: g)
  case Nil
  show ?case by simp
next
  case (Cons f hs)
  show ?case
  proof (cases "running g")
    case True
    have "difficulty g \<le> difficulty (frame rnd f g)"
      using Cons.prems by (intro difficulty_frame_mono) simp
    also have "\<dots> \<le> difficulty (run rnd hs (frame rnd f g))"
      using Cons.prems by (intro Cons.IH) simp
    finally show ?thesis using True by simp
  next
    case False
    then show ?thesis by simp
  qed
qed

lemma spawn_inv_init: "spawn_inv (init t0)"
  by (simp add: spawn_inv_def init_def)

subsection \<open>Remaining distance\<close>

lemma kmPerSec_pos:
  assumes "0 \<le> k" "k \<le> KM_TOTAL"
  shows "0 \<le> 120 + (160 - 120) *
           (((KM_TOTAL - k) / KM_TOTAL) * ((KM_TOTAL - k) / KM_TOTAL) * (3 - 2 * ((KM_TOTAL - k) / KM_TOTAL)))"
proof -
  let ?p = "(KM_TOTAL - k) / KM_TOTAL"
  have p: "0 \<le> ?p" "?p \<le> 1"
    using assms by (simp_all add: KM_TOTAL_def)
  have "0 \<le> ?p * ?p" by simp
  moreover have "0 \<le> 3 - 2 * ?p" using p by linarith
  ultimately have "0 \<le> ?p * ?p * (3 - 2 * ?p)"
    by (rule mult_nonneg_nonneg)
  then show ?thesis by simp
qed

lemma progress_phase_km:
  assumes "0 \<le> dts" "0 \<le> kmLeft g" "kmLeft g \<le> KM_TOTAL"
  shows "0 \<le> kmLeft (progress_phase dts g)"
    and "kmLeft (progress_phase dts g) \<le> kmLeft g"
    and "victory (progress_phase dts g) \<Longrightarrow> \<not> victory g \<Longrightarrow> kmLeft (progress_phase dts g) = 0"
proof -
  let ?s = "120 + (160 - 120) *
     (((KM_TOTAL - kmLeft g) / KM_TOTAL) * ((KM_TOTAL - kmLeft g) / KM_TOTAL)
        * (3 - 2 * ((KM_TOTAL - kmLeft g) / KM_TOTAL)))"
  have "0 \<le> ?s" using assms(2,3) by (rule kmPerSec_pos)
  then have s: "0 \<le> ?s * dts" using assms(1) by (rule mult_nonneg_nonneg)
  have eq: "progress_phase dts g =
    (if kmLeft g - ?s * dts \<le> 0 then g\<lparr>kmLeft := 0, victory := True\<rparr>
     else g\<lparr>kmLeft := kmLeft g - ?s * dts\<rparr>)"
    by (simp add: progress_phase_def Let_def)
  show "0 \<le> kmLeft (progress_phase dts g)"
    unfolding eq by simp
  show "kmLeft (progress_phase dts g) \<le> kmLeft g"
    unfolding eq using s assms(2) by simp
  show "kmLeft (progress_phase dts g) = 0" if "victory (progress_phase dts g)" "\<not> victory g"
    using that unfolding eq by (simp split: if_splits)
qed

lemma tick_km_active:
  "\<not> gameOver g \<Longrightarrow> \<not> victory g \<Longrightarrow>
     kmLeft (tick rnd dtms g) = kmLeft (progress_phase (dtms / 1000) g) \<and>
     victory (tick rnd dtms g) = victory (progress_phase (dtms / 1000) g)"
  by (simp add: tick_active) (simp add: progress_phase_def Let_def phase_fields)

lemma tick_km:
  assumes "0 \<le> dtms" "0 \<le> kmLeft g" "kmLeft g \<le> KM_TOTAL"
  shows "0 \<le> kmLeft (tick rnd dtms g)"
    and "kmLeft (tick rnd dtms g) \<le> kmLeft g"
    and "victory (tick rnd dtms g) \<Longrightarrow> \<not> victory g \<Longrightarrow> kmLeft (tick rnd dtms g) = 0"
proof -
  have d: "0 \<le> dtms / 1000" using assms(1) by simp
  note p = progress_phase_km [OF d assms(2,3)]
  show "0 \<le> kmLeft (tick rnd dtms g)"
    using p(1) assms(2) by (cases "gameOver g \<or> victory g") (auto simp: tick_inactive tick_km_active)
  show "kmLeft (tick rnd dtms g) \<le> kmLeft g"
    using p(2) by (cases "gameOver g \<or> victory g") (auto simp: tick_inactive tick_km_active)
  show "kmLeft (tick rnd dtms g) = 0" if "victory (tick rnd dtms g)" "\<not> victory g"
    using p(3) that by (cases "gameOver g") (auto simp: tick_inactive tick_km_active)
qed

lemma km_inv_tick:
  assumes "km_inv g" "0 \<le> dtms"
  shows "km_inv (tick rnd dtms g)"
proof -
  have k: "0 \<le> kmLeft g" "kmLeft g \<le> KM_TOTAL"
    using assms(1) by (simp_all add: km_inv_def)
  note t = tick_km [OF assms(2) k, of rnd]
  show ?thesis
  proof (cases "victory g")
    case True
    then show ?thesis using assms(1) by (simp add: tick_inactive)
  next
    case False
    then show ?thesis using t k unfolding km_inv_def by fastforce
  qed
qed

lemma km_inv_handle_event: "km_inv g \<Longrightarrow> km_inv (handle_event e g)"
  by (cases e) (auto simp: Let_def km_inv_def KM_TOTAL_def)

lemma km_inv_poll_events: "km_inv g \<Longrightarrow> km_inv (poll_events es g)"
  by (induction es arbitrary: g) (simp_all add: km_inv_handle_event)

lemma km_inv_frame:
  assumes "km_inv g"
  shows "km_inv (frame rnd f g)"
proof -
  have "km_inv (poll_events (fst f) g)"
    using assms by (rule km_inv_poll_events)
  then have "km_inv ((poll_events (fst f) g)\<lparr>last_tick := snd f\<rparr>)"
    by (simp add: km_inv_def)
  then show ?thesis
    unfolding frame_def Let_def by (rule km_inv_tick) (rule dtms_nonneg)
qed

lemma km_inv_run: "km_inv g \<Longrightarrow> km_inv (run rnd fs g)"
  by (induction fs arbitrary: g) (simp_all add: km_inv_frame)

lemma km_inv_init: "km_inv (init t0)"
  by (simp add: km_inv_def init_def KM_TOTAL_def)

lemma kmLeft_handle_event:
  "e \<noteq> SDL_KEYDOWN SDLK_RETURN \<Longrightarrow> kmLeft (handle_event e g) = kmLeft g"
  by (cases e) (auto simp: Let_def)

lemma kmLeft_poll_events:
  "SDL_KEYDOWN SDLK_RETURN \<notin> set es \<Longrightarrow> kmLeft (poll_events es g) = kmLeft g"
  by (induction es arbitrary: g) (auto simp: kmLeft_handle_event)

lemma kmLeft_frame_mono:
  assumes "km_inv g" "SDL_KEYDOWN SDLK_RETURN \<notin> set (fst f)"
  shows "kmLeft (frame rnd f g) \<le> kmLeft g"
proof -
  let ?g1 = "(poll_events (fst f) g)\<lparr>last_tick := snd f\<rparr>"
  have k: "kmLeft ?g1 = kmLeft g"
    using assms(2) by (simp add: kmLeft_poll_events)
  have "0 \<le> kmLeft ?g1" "kmLeft ?g1 \<le> KM_TOTAL"
    using assms(1) unfolding k by (simp_all add: km_inv_def)
  from tick_km(2) [OF dtms_nonneg this]
  show ?thesis unfolding frame_def Let_def k .
qed

lemma kmLeft_run_mono:
  "km_inv g \<Longrightarrow> \<forall>f\<in>set hs. SDL_KEYDOWN SDLK_RETURN \<notin> set (fst f) \<Longrightarrow>
     kmLeft (run rnd hs g) \<le> kmLeft g"
proof (induction hs arbitrary: g)
  case Nil
  show ?case by simp
next
  case (Cons f hs)
  show ?case
  proof (cases "running g")
    case True
    have "kmLeft (run rnd hs (frame rnd f g)) \<le> kmLeft (frame rnd f g)"
      using Cons.prems by (intro Cons.IH km_inv_frame) simp_all
    also have "\<dots> \<le> kmLeft g"
      using Cons.prems by (intro kmLeft_frame_mono) simp_all
    finally show ?thesis using True by simp
  next
    case False
    then show ?thesis by simp
  qed
qed

lemma progress_mono: "kmLeft g' \<le> kmLeft g \<Longrightarrow> progress g \<le> progress g'"
  by (simp add: progress_def KM_TOTAL_def)

subsection \<open>The spawn timer\<close>

lemma rpos_addObstacle: "rpos (addObstacle rnd speed g) \<le> rpos g + 5"
  by (simp add: addObstacle_def Let_def)

lemma obs_addObstacle:
  "\<exists>bs. length bs \<le> 1 \<and> obs (addObstacle rnd speed g) = obs g @ bs"
proof (cases "length (obs g) \<ge> 128")
  case True
  then have "obs (addObstacle rnd speed g) = obs g @ []"
    by (simp add: addObstacle_def)
  then show ?thesis by (intro exI [of _ "[]"]) simp
next
  case False
  then have "\<exists>b. obs (addObstacle rnd speed g) = obs g @ [b]"
    by (simp add: addObstacle_def Let_def)
  then obtain b where "obs (addObstacle rnd speed g) = obs g @ [b]" ..
  then show ?thesis by (intro exI [of _ "[b]"]) simp
qed

lemma spawn_phase_fired:
  "spawnMs g \<le> spawnTimer g + dtms \<Longrightarrow>
     spawn_phase rnd dtms g =
       addObstacle rnd (worldSpeed g) (g\<lparr>spawnTimer := 0\<rparr>)"
  by (simp add: spawn_phase_def Let_def worldSpeed_def)

lemma spawn_phase_idle:
  "spawnTimer g + dtms < spawnMs g \<Longrightarrow>
     spawn_phase rnd dtms g = g\<lparr>spawnTimer := spawnTimer g + dtms\<rparr>"
  by (simp add: spawn_phase_def Let_def)

lemma spawn_phase_timer:
  "spawnTimer (spawn_phase rnd dtms g) =
     (if spawnMs g \<le> spawnTimer g + dtms then 0 else spawnTimer g + dtms)"
  by (simp add: spawn_phase_def Let_def addObstacle_fields)

lemma spawn_phase_rpos: "rpos (spawn_phase rnd dtms g) \<le> rpos g + 5"
  using rpos_addObstacle [of rnd "worldSpeed g" "g\<lparr>spawnTimer := 0\<rparr>"]
  by (cases "spawnMs g \<le> spawnTimer g + dtms") (simp_all add: spawn_phase_fired spawn_phase_idle)

lemma spawn_phase_obs:
  "\<exists>bs. length bs \<le> 1 \<and> obs (spawn_phase rnd dtms g) = obs g @ bs"
proof (cases "spawnMs g \<le> spawnTimer g + dtms")
  case True
  then show ?thesis
    using obs_addObstacle [of rnd "worldSpeed g" "g\<lparr>spawnTimer := 0\<rparr>"]
    by (simp add: spawn_phase_fired)
next
  case False
  then have "obs (spawn_phase rnd dtms g) = obs g @ []"
    by (simp add: spawn_phase_idle)
  then show ?thesis by (intro exI [of _ "[]"]) simp
qed

lemma tick_spawn:
  assumes "\<not> gameOver g" "\<not> victory g"
  shows "spawnTimer (tick rnd dtms g) =
      spawnTimer (spawn_phase rnd dtms (physics_phase (min 48 dtms / 16.6667) (difficulty_phase dtms g)))"
    and "rpos (tick rnd dtms g) =
      rpos (spawn_phase rnd dtms (physics_phase (min 48 dtms / 16.6667) (difficulty_phase dtms g)))"
    and "obs (tick rnd dtms g) =
      cull (advance (obs (spawn_phase rnd dtms
        (physics_phase (min 48 dtms / 16.6667) (difficulty_phase dtms g)))))"
    and "spawnMs (tick rnd dtms g) = spawnMs (difficulty_phase dtms g)"
  using assms by (simp_all add: tick_active phase_fields)

lemma length_tick_Suc: "length (obs (tick rnd dtms g)) \<le> length (obs g) + 1"
proof (cases "gameOver g \<or> victory g")
  case True
  then show ?thesis by (simp add: tick_inactive)
next
  case False
  let ?g2 = "physics_phase (min 48 dtms / 16.6667) (difficulty_phase dtms g)"
  from False have a: "\<not> gameOver g" "\<not> victory g" by simp_all
  have "length (obs (tick rnd dtms g)) \<le> length (obs (spawn_phase rnd dtms ?g2))"
    unfolding tick_spawn(3) [OF a]
    using length_cull [of "advance (obs (spawn_phase rnd dtms ?g2))"] by (simp add: length_advance)
  also have "\<dots> \<le> Suc (length (obs ?g2))" by (rule length_spawn_phase(1))
  finally show ?thesis by (simp add: phase_fields)
qed

lemma rpos_tick: "rpos (tick rnd dtms g) \<le> rpos g + 5"
proof (cases "gameOver g \<or> victory g")
  case True
  then show ?thesis by (simp add: tick_inactive)
next
  case False
  then have a: "\<not> gameOver g" "\<not> victory g" by simp_all
  show ?thesis
    unfolding tick_spawn(2) [OF a]
    using spawn_phase_rpos [of rnd dtms "physics_phase (min 48 dtms / 16.6667) (difficulty_phase dtms g)"]
    by (simp add: phase_fields)
qed

lemma tick_idle:
  assumes "spawnTimer g + dtms < spawnMs (tick rnd dtms g)"
  shows "rpos (tick rnd dtms g) = rpos g \<and> length (obs (tick rnd dtms g)) \<le> length (obs g)"
proof (cases "gameOver g \<or> victory g")
  case True
  then show ?thesis by (simp add: tick_inactive)
next
  case False
  let ?g2 = "physics_phase (min 48 dtms / 16.6667) (difficulty_phase dtms g)"
  from False have a: "\<not> gameOver g" "\<not> victory g" by simp_all
  have "spawnTimer ?g2 + dtms < spawnMs ?g2"
    using assms by (simp add: tick_spawn(4) [OF a] phase_fields)
  then have s: "rpos (spawn_phase rnd dtms ?g2) = rpos ?g2 \<and>
      obs (spawn_phase rnd dtms ?g2) = obs ?g2"
    by (simp add: spawn_phase_idle)
  have "rpos (tick rnd dtms g) = rpos g"
    using s by (simp add: tick_spawn(2) [OF a] phase_fields)
  moreover have "length (obs (tick rnd dtms g)) \<le> length (obs g)"
    using s length_cull [of "advance (obs g)"]
    by (simp add: tick_spawn(3) [OF a] phase_fields length_advance)
  ultimately show ?thesis by simp
qed

subsection \<open>The collision box of the code\<close>

lemma hit_shifted:
  "hit ax ay aw ah b = collides_spec (ax - 0.2 * aw) (ay - 0.2 * ah) aw ah b"
  by (auto simp: hit_def collides_spec_def Let_def)

subsection \<open>A run with two stalled frames\<close>

lemma init_0: 
  "init 0 =
     \<lparr>obs = [], rpos = 0, py = 270, vy = 0,
      holding = False, running = True, victory = False, gameOver = False,
      kmLeft = 12000, difficulty = 1, spawnMs = 1100, spawnTimer = 0, last_tick = 0\<rparr>"
  by (simp add: init_def H_def KM_TOTAL_def)

lemma stalled_frame_1: "frame rnd_bird ([], 90000) (init 0) = stalled_1"
  apply (simp add: frame_def init_0)
  apply (simp add: tick_active)
  apply (simp add: difficulty_phase_def Let_def)
  apply (simp add: physics_phase_def Let_def consts_defs)
  apply (simp add: spawn_phase_def worldSpeed_def Let_def addObstacle_def rnd_bird_def consts_defs)
  apply (simp add: collide_phase_def hit_def consts_defs)
  apply (simp add: progress_phase_def Let_def consts_defs stalled_1_def)
  done

lemma stalled_frame_2: "frame rnd_bird ([], 90001) stalled_1 = stalled_2"
  apply (simp add: frame_def stalled_1_def)
  apply (simp add: tick_active)
  apply (simp add: difficulty_phase_def Let_def)
  apply (simp add: physics_phase_def Let_def consts_defs)
  apply (simp add: spawn_phase_def worldSpeed_def Let_def)
  apply (simp add: collide_phase_def hit_def consts_defs)
  apply (simp add: progress_phase_def Let_def consts_defs stalled_2_def)
  done

lemma stalled_frame_3:
  "gameOver (frame rnd_bird ([], 180001) stalled_2) \<and>
   victory (frame rnd_bird ([], 180001) stalled_2)"
  apply (simp add: frame_def stalled_2_def)
  apply (simp add: tick_active)
  apply (simp add: difficulty_phase_def Let_def)
  apply (simp add: physics_phase_def Let_def consts_defs)
  apply (simp add: spawn_phase_def worldSpeed_def Let_def addObstacle_def rnd_bird_def consts_defs)
  apply (simp add: collide_phase_def hit_def consts_defs)
  apply (simp add: progress_phase_def Let_def consts_defs)
  done

lemma stalled_run:
  "run rnd_bird stalled_frames (init 0) = frame rnd_bird ([], 180001) stalled_2"
proof -
  have r: "running (init 0)" "running stalled_1" "running stalled_2"
    by (simp_all add: init_def stalled_1_def stalled_2_def)
  show ?thesis
    by (simp add: stalled_frames_def r stalled_frame_1 stalled_frame_2)
qed

subsection \<open>What the tick does with the elapsed time\<close>

lemma tick_player_clamped:
  assumes "48 \<le> dtms" "\<not> gameOver g" "\<not> victory g"
  shows "py (tick rnd dtms g) = py (tick rnd 48 g)" and "vy (tick rnd dtms g) = vy (tick rnd 48 g)"
proof -
  have m: "min 48 dtms = 48" "min 48 (48::real) = 48"
    using assms(1) by simp_all
  show "py (tick rnd dtms g) = py (tick rnd 48 g)" "vy (tick rnd dtms g) = vy (tick rnd 48 g)"
    using m(1) by (simp_all add: tick_player [OF assms(2,3)])
qed

lemma tick_timer:
  "\<not> gameOver g \<Longrightarrow> \<not> victory g \<Longrightarrow>
     spawnTimer (tick rnd dtms g) =
       (if spawnMs (tick rnd dtms g) \<le> spawnTimer g + dtms then 0 else spawnTimer g + dtms)"
  by (simp add: tick_spawn(1,4) spawn_phase_timer phase_fields)

lemma tick_kmLeft:
  "\<not> gameOver g \<Longrightarrow> \<not> victory g \<Longrightarrow>
     kmLeft (tick rnd dtms g) =
       (let km = kmLeft g - (120 + 40 * (progress g * progress g * (3 - 2 * progress g)))
                    * (dtms / 1000)
        in if km \<le> 0 then 0 else km)"
  by (simp add: tick_km_active) (simp add: progress_phase_def progress_def Let_def)

subsection \<open>The obstacle made by addObstacle\<close>

lemma addObstacle_cloud:
  assumes "length (obs g) < 128" "real (rnd (rpos g)) / real RAND_MAX < 0.55"
  shows "obs (addObstacle rnd speed g) = obs g @
     [\<lparr>o_x = real_of_int W + 40 + real (rnd (rpos g + 4) mod 120),
       o_y = real (60 + rnd (rpos g + 3) mod 240),
       o_w = real (90 + rnd (rpos g + 1) mod 80),
       o_h = real (50 + rnd (rpos g + 2) mod 30),
       o_speed = speed * 1.0, o_type = 0\<rparr>]"
  using assms by (simp add: addObstacle_def Let_def)

lemma addObstacle_bird:
  assumes "length (obs g) < 128" "0.55 \<le> real (rnd (rpos g)) / real RAND_MAX"
    "real (rnd (rpos g)) / real RAND_MAX < 0.85"
  shows "obs (addObstacle rnd speed g) = obs g @
     [\<lparr>o_x = real_of_int W + 40 + real (rnd (rpos g + 2) mod 120),
       o_y = real (100 + rnd (rpos g + 1) mod 260),
       o_w = 44, o_h = 28, o_speed = speed * 1.35, o_type = 1\<rparr>]"
  using assms by (simp add: addObstacle_def Let_def)

lemma addObstacle_storm:
  assumes "length (obs g) < 128" "0.85 \<le> real (rnd (rpos g)) / real RAND_MAX"
  shows "obs (addObstacle rnd speed g) = obs g @
     [\<lparr>o_x = real_of_int W + 40 + real (rnd (rpos g + 3) mod 120),
       o_y = (if rnd (rpos g + 2) mod 2 = 0 then 40
              else real_of_int GROUND_Y - real (120 + rnd (rpos g + 1) mod 120)),
       o_w = 50, o_h = real (120 + rnd (rpos g + 1) mod 120),
       o_speed = speed * 1.1, o_type = 2\<rparr>]"
  using assms by (simp add: addObstacle_def Let_def)

lemma mod_bounds:
  "(n::nat) mod 80 \<le> 79" "n mod 30 \<le> 29" "n mod 240 \<le> 239" "n mod 260 \<le> 259" "n mod 120 \<le> 119"
  by simp_all

section \<open>The claims\<close>

subsection \<open>C1: the shrunk hitbox\<close>

text \<open>
  C1. The claim asks for a hitbox of 80 percent of the visual box centred in it. With the
  player at the initial height, the visual box is \<open>[181.2, 241.2] \<times> [252, 288]\<close> and the
  centred hitbox \<open>[187.2, 235.2] \<times> [255.6, 284.4]\<close>. A bird occupying
  \<open>[135, 179] \<times> [250, 278]\<close> lies wholly to the left of both, yet \<open>hit\<close> reports a
  collision: the code subtracts the margin from the corner instead of adding it, so its box
  is \<open>[175.2, 223.2] \<times> [248.4, 277.2]\<close>.
\<close>

theorem hit_off_centre:
  "hit (px - 30) (270 - 18) 60 36 bird_behind \<and>
   \<not> collides_spec (px - 30) (270 - 18) 60 36 bird_behind \<and>
   o_x bird_behind + o_w bird_behind < px - 30"
  by (simp add: hit_def collides_spec_def Let_def bird_behind_def px_def W_def)

subsection \<open>C2: the 48 ms clamp\<close>

text \<open>
  C2 as stated fails: from the initial state a frame of 100 ms and a frame of 48 ms leave
  different difficulty, spawn timer and remaining distance.
\<close>

theorem clamp_counterexample:
  "difficulty (tick rnd_zero 100 (init 0)) \<noteq> difficulty (tick rnd_zero 48 (init 0)) \<and>
   spawnTimer (tick rnd_zero 100 (init 0)) \<noteq> spawnTimer (tick rnd_zero 48 (init 0)) \<and>
   kmLeft (tick rnd_zero 100 (init 0)) \<noteq> kmLeft (tick rnd_zero 48 (init 0))"
proof -
  have act: "\<not> gameOver (init 0)" "\<not> victory (init 0)"
    by (simp_all add: init_def)
  have i: "difficulty (init 0) = 1" "spawnTimer (init 0) = 0" "kmLeft (init 0) = 12000"
    "progress (init 0) = 0"
    by (simp_all add: init_def KM_TOTAL_def progress_def)
  show ?thesis
    by (simp add: tick_timer [OF act] tick_difficulty [OF act] tick_kmLeft [OF act] i Let_def)
qed

text \<open>
  C2, amended. Only the physics step is taken from the clamped time: for an active session
  and a raw elapsed time of at least 48 ms the player's position and velocity after the tick
  are those of a 48 ms tick. The difficulty grows by \<open>0.00045\<close> times the raw time, the
  spawn timer advances by the raw time (and is zero if that reaches the spawn interval), and
  the remaining distance falls by the travel speed times the raw time in seconds.
\<close>

theorem clamp_physics_only:
  "48 \<le> dtms \<and> \<not> gameOver g \<and> \<not> victory g \<longrightarrow>
     py (tick rnd dtms g) = py (tick rnd 48 g) \<and>
     vy (tick rnd dtms g) = vy (tick rnd 48 g) \<and>
     difficulty (tick rnd dtms g) = difficulty g + 0.00045 * dtms \<and>
     spawnTimer (tick rnd dtms g) =
       (if spawnMs (tick rnd dtms g) \<le> spawnTimer g + dtms then 0 else spawnTimer g + dtms) \<and>
     kmLeft (tick rnd dtms g) =
       (let km = kmLeft g - (120 + 40 * (progress g * progress g * (3 - 2 * progress g)))
                    * (dtms / 1000)
        in if km \<le> 0 then 0 else km)"
proof
  assume h: "48 \<le> dtms \<and> \<not> gameOver g \<and> \<not> victory g"
  then have a: "48 \<le> dtms" and b: "\<not> gameOver g" and c: "\<not> victory g"
    by simp_all
  note tick_player_clamped [OF a b c, of rnd] tick_difficulty [OF b c, of rnd dtms]
    tick_timer [OF b c, of rnd dtms] tick_kmLeft [OF b c, of rnd dtms]
  then show "py (tick rnd dtms g) = py (tick rnd 48 g) \<and>
     vy (tick rnd dtms g) = vy (tick rnd 48 g) \<and>
     difficulty (tick rnd dtms g) = difficulty g + 0.00045 * dtms \<and>
     spawnTimer (tick rnd dtms g) =
       (if spawnMs (tick rnd dtms g) \<le> spawnTimer g + dtms then 0 else spawnTimer g + dtms) \<and>
     kmLeft (tick rnd dtms g) =
       (let km = kmLeft g - (120 + 40 * (progress g * progress g * (3 - 2 * progress g)))
                    * (dtms / 1000)
        in if km \<le> 0 then 0 else km)"
    by blast
qed

theorem clamp_physics_only_witness:
  "(48::real) \<le> 100 \<and> \<not> gameOver (init 0) \<and> \<not> victory (init 0) \<and>
   py (tick rnd_zero 100 (init 0)) = py (tick rnd_zero 48 (init 0)) \<and>
   vy (tick rnd_zero 100 (init 0)) = vy (tick rnd_zero 48 (init 0)) \<and>
   difficulty (tick rnd_zero 100 (init 0)) = 1.045 \<and>
   spawnTimer (tick rnd_zero 100 (init 0)) = 100 \<and>
   kmLeft (tick rnd_zero 100 (init 0)) = 11988"
proof -
  have h: "(48::real) \<le> 100 \<and> \<not> gameOver (init 0) \<and> \<not> victory (init 0)"
    by (simp add: init_def)
  have i: "difficulty (init 0) = 1" "spawnTimer (init 0) = 0" "kmLeft (init 0) = 12000"
    "progress (init 0) = 0"
    by (simp_all add: init_def KM_TOTAL_def progress_def)
  note r = clamp_physics_only [of 100 "init 0" rnd_zero, THEN mp, OF h]
  have s: "\<not> spawnMs (tick rnd_zero 100 (init 0)) \<le> 100"
    using h by (simp add: tick_difficulty i)
  from r have "py (tick rnd_zero 100 (init 0)) = py (tick rnd_zero 48 (init 0))"
    "vy (tick rnd_zero 100 (init 0)) = vy (tick rnd_zero 48 (init 0))"
    "difficulty (tick rnd_zero 100 (init 0)) = 1.045"
    "spawnTimer (tick rnd_zero 100 (init 0)) = 100"
    "kmLeft (tick rnd_zero 100 (init 0)) = 11988"
    using s by (simp_all add: i Let_def)
  with h show ?thesis by simp
qed

subsection \<open>C3: crash and completion in one tick\<close>

text \<open>
  C3. The claim says that no tick starting from an active session ends with both end flags
  set. In the run \<open>stalled_frames\<close> the third frame starts active, a bird overlaps the
  player's box and the elapsed 90 seconds exhaust the remaining distance: the tick sets
  \<open>gameOver\<close> in the collision loop, goes on to the progress update and sets \<open>victory\<close>
  as well.
\<close>

theorem crash_and_complete:
  "\<not> gameOver stalled_2 \<and> \<not> victory stalled_2 \<and>
   run rnd_bird [([], 90000), ([], 90001)] (init 0) = stalled_2 \<and>
   gameOver (run rnd_bird stalled_frames (init 0)) \<and>
   victory (run rnd_bird stalled_frames (init 0))"
proof -
  have r: "running (init 0)" "running stalled_1"
    by (simp_all add: init_def stalled_1_def)
  have "run rnd_bird [([], 90000), ([], 90001)] (init 0) = stalled_2"
    by (simp add: r stalled_frame_1 stalled_frame_2)
  moreover have "\<not> gameOver stalled_2 \<and> \<not> victory stalled_2"
    by (simp add: stalled_2_def)
  ultimately show ?thesis
    using stalled_frame_3 by (simp add: stalled_run)
qed

subsection \<open>C4: size and placement by kind\<close>

text \<open>
  C4 as stated fails for the bird: two streams that select a bird and differ in every later
  draw give birds at different places with the same size 44 by 28.
\<close>

theorem bird_size_fixed:
  "rnd_bird 1 \<noteq> rnd_bird_b 1 \<and> rnd_bird 2 \<noteq> rnd_bird_b 2 \<and>
   obs (addObstacle rnd_bird 5 (init 0)) =
     [\<lparr>o_x = 1000, o_y = 260, o_w = 44, o_h = 28, o_speed = 6.75, o_type = 1\<rparr>] \<and>
   obs (addObstacle rnd_bird_b 5 (init 0)) =
     [\<lparr>o_x = 1042, o_y = 321, o_w = 44, o_h = 28, o_speed = 6.75, o_type = 1\<rparr>]"
  by (simp add: addObstacle_def Let_def init_def rnd_bird_def rnd_bird_b_def RAND_MAX_def W_def)

text \<open>
  C4, amended. When the store is not full, \<open>addObstacle\<close> appends one obstacle whose kind
  is chosen by the first draw. A cloud has width \<open>90 + d mod 80\<close>, height \<open>50 + d mod 30\<close>
  and top \<open>60 + d mod 240\<close>, each from a draw \<open>d\<close> of its own, so in \<open>[90, 169]\<close>,
  \<open>[50, 79]\<close> and \<open>[60, 299]\<close>. A bird always measures 44 by 28 and has its top at
  \<open>100 + d mod 260\<close>, in \<open>[100, 359]\<close>. A storm column always has width 50, height
  \<open>120 + d mod 120\<close> in \<open>[120, 239]\<close>, and is anchored by the parity of a further draw:
  even puts its top at 40, odd puts its bottom edge at \<open>GROUND_Y\<close>.
\<close>

theorem spawn_shapes:
  "length (obs g) < 128 \<longrightarrow>
     obs (addObstacle rnd speed g) = obs g @ [last (obs (addObstacle rnd speed g))] \<and>
     (real (rnd (rpos g)) / real RAND_MAX < 0.55 \<longrightarrow>
        o_type (last (obs (addObstacle rnd speed g))) = 0 \<and>
        o_w (last (obs (addObstacle rnd speed g))) = real (90 + rnd (rpos g + 1) mod 80) \<and>
        90 \<le> o_w (last (obs (addObstacle rnd speed g))) \<and>
        o_w (last (obs (addObstacle rnd speed g))) \<le> 169 \<and>
        o_h (last (obs (addObstacle rnd speed g))) = real (50 + rnd (rpos g + 2) mod 30) \<and>
        50 \<le> o_h (last (obs (addObstacle rnd speed g))) \<and>
        o_h (last (obs (addObstacle rnd speed g))) \<le> 79 \<and>
        o_y (last (obs (addObstacle rnd speed g))) = real (60 + rnd (rpos g + 3) mod 240) \<and>
        60 \<le> o_y (last (obs (addObstacle rnd speed g))) \<and>
        o_y (last (obs (addObstacle rnd speed g))) \<le> 299) \<and>
     (0.55 \<le> real (rnd (rpos g)) / real RAND_MAX \<and> real (rnd (rpos g)) / real RAND_MAX < 0.85 \<longrightarrow>
        o_type (last (obs (addObstacle rnd speed g))) = 1 \<and>
        o_w (last (obs (addObstacle rnd speed g))) = 44 \<and>
        o_h (last (obs (addObstacle rnd speed g))) = 28 \<and>
        o_y (last (obs (addObstacle rnd speed g))) = real (100 + rnd (rpos g + 1) mod 260) \<and>
        100 \<le> o_y (last (obs (addObstacle rnd speed g))) \<and>
        o_y (last (obs (addObstacle rnd speed g))) \<le> 359) \<and>
     (0.85 \<le> real (rnd (rpos g)) / real RAND_MAX \<longrightarrow>
        o_type (last (obs (addObstacle rnd speed g))) = 2 \<and>
        o_w (last (obs (addObstacle rnd speed g))) = 50 \<and>
        o_h (last (obs (addObstacle rnd speed g))) = real (120 + rnd (rpos g + 1) mod 120) \<and>
        120 \<le> o_h (last (obs (addObstacle rnd speed g))) \<and>
        o_h (last (obs (addObstacle rnd speed g))) \<le> 239 \<and>
        (rnd (rpos g + 2) mod 2 = 0 \<longrightarrow> o_y (last (obs (addObstacle rnd speed g))) = 40) \<and>
        (rnd (rpos g + 2) mod 2 \<noteq> 0 \<longrightarrow>
           o_y (last (obs (addObstacle rnd speed g))) + o_h (last (obs (addObstacle rnd speed g)))
             = real_of_int GROUND_Y))"
proof
  assume len: "length (obs g) < 128"
  let ?b = "last (obs (addObstacle rnd speed g))"
  let ?r = "real (rnd (rpos g)) / real RAND_MAX"
  have a: "obs (addObstacle rnd speed g) = obs g @ [?b]"
  proof -
    consider "?r < 0.55" | "0.55 \<le> ?r" "?r < 0.85" | "0.85 \<le> ?r" by linarith
    then show ?thesis
    proof cases
      case 1
      show ?thesis by (simp add: addObstacle_cloud [where rnd = rnd and g = g, OF len 1])
    next
      case 2
      show ?thesis by (simp add: addObstacle_bird [where rnd = rnd and g = g, OF len 2])
    next
      case 3
      show ?thesis by (simp add: addObstacle_storm [where rnd = rnd and g = g, OF len 3])
    qed
  qed
  have c: "o_type ?b = 0 \<and>
        o_w ?b = real (90 + rnd (rpos g + 1) mod 80) \<and> 90 \<le> o_w ?b \<and> o_w ?b \<le> 169 \<and>
        o_h ?b = real (50 + rnd (rpos g + 2) mod 30) \<and> 50 \<le> o_h ?b \<and> o_h ?b \<le> 79 \<and>
        o_y ?b = real (60 + rnd (rpos g + 3) mod 240) \<and> 60 \<le> o_y ?b \<and> o_y ?b \<le> 299"
    if "?r < 0.55"
    using mod_bounds(1) [of "rnd (rpos g + 1)"] mod_bounds(2) [of "rnd (rpos g + 2)"]
      mod_bounds(3) [of "rnd (rpos g + 3)"]
    by (simp add: addObstacle_cloud [where rnd = rnd and g = g, OF len that])
  have b: "o_type ?b = 1 \<and> o_w ?b = 44 \<and> o_h ?b = 28 \<and>
        o_y ?b = real (100 + rnd (rpos g + 1) mod 260) \<and> 100 \<le> o_y ?b \<and> o_y ?b \<le> 359"
    if "0.55 \<le> ?r \<and> ?r < 0.85"
  proof -
    from that have t: "0.55 \<le> ?r" "?r < 0.85" by simp_all
    show ?thesis
      using mod_bounds(4) [of "rnd (rpos g + 1)"]
      by (simp add: addObstacle_bird [where rnd = rnd and g = g, OF len t])
  qed
  have s: "o_type ?b = 2 \<and> o_w ?b = 50 \<and>
        o_h ?b = real (120 + rnd (rpos g + 1) mod 120) \<and> 120 \<le> o_h ?b \<and> o_h ?b \<le> 239 \<and>
        (rnd (rpos g + 2) mod 2 = 0 \<longrightarrow> o_y ?b = 40) \<and>
        (rnd (rpos g + 2) mod 2 \<noteq> 0 \<longrightarrow> o_y ?b + o_h ?b = real_of_int GROUND_Y)"
    if "0.85 \<le> ?r"
    using mod_bounds(5) [of "rnd (rpos g + 1)"]
    by (simp add: addObstacle_storm [where rnd = rnd and g = g, OF len that])
  from a c b s show "obs (addObstacle rnd speed g) = obs g @ [?b] \<and>
     (?r < 0.55 \<longrightarrow>
        o_type ?b = 0 \<and>
        o_w ?b = real (90 + rnd (rpos g + 1) mod 80) \<and> 90 \<le> o_w ?b \<and> o_w ?b \<le> 169 \<and>
        o_h ?b = real (50 + rnd (rpos g + 2) mod 30) \<and> 50 \<le> o_h ?b \<and> o_h ?b \<le> 79 \<and>
        o_y ?b = real (60 + rnd (rpos g + 3) mod 240) \<and> 60 \<le> o_y ?b \<and> o_y ?b \<le> 299) \<and>
     (0.55 \<le> ?r \<and> ?r < 0.85 \<longrightarrow>
        o_type ?b = 1 \<and> o_w ?b = 44 \<and> o_h ?b = 28 \<and>
        o_y ?b = real (100 + rnd (rpos g + 1) mod 260) \<and> 100 \<le> o_y ?b \<and> o_y ?b \<le> 359) \<and>
     (0.85 \<le> ?r \<longrightarrow>
        o_type ?b = 2 \<and> o_w ?b = 50 \<and>
        o_h ?b = real (120 + rnd (rpos g + 1) mod 120) \<and> 120 \<le> o_h ?b \<and> o_h ?b \<le> 239 \<and>
        (rnd (rpos g + 2) mod 2 = 0 \<longrightarrow> o_y ?b = 40) \<and>
        (rnd (rpos g + 2) mod 2 \<noteq> 0 \<longrightarrow> o_y ?b + o_h ?b = real_of_int GROUND_Y))"
    by blast
qed

theorem spawn_shapes_witness:
  "length (obs (init 0)) < 128 \<and>
   real (rnd_zero (rpos (init 0))) / real RAND_MAX < 0.55 \<and>
   o_w (last (obs (addObstacle rnd_zero 5 (init 0)))) = 90 \<and>
   o_h (last (obs (addObstacle rnd_zero 5 (init 0)))) = 50 \<and>
   o_y (last (obs (addObstacle rnd_zero 5 (init 0)))) = 60 \<and>
   0.55 \<le> real (rnd_bird (rpos (init 0))) / real RAND_MAX \<and>
   real (rnd_bird (rpos (init 0))) / real RAND_MAX < 0.85 \<and>
   o_w (last (obs (addObstacle rnd_bird 5 (init 0)))) = 44 \<and>
   o_h (last (obs (addObstacle rnd_bird 5 (init 0)))) = 28 \<and>
   o_y (last (obs (addObstacle rnd_bird 5 (init 0)))) = 260 \<and>
   0.85 \<le> real (rnd_storm_top (rpos (init 0))) / real RAND_MAX \<and>
   rnd_storm_top (rpos (init 0) + 2) mod 2 = 0 \<and>
   o_h (last (obs (addObstacle rnd_storm_top 5 (init 0)))) = 120 \<and>
   o_y (last (obs (addObstacle rnd_storm_top 5 (init 0)))) = 40 \<and>
   0.85 \<le> real (rnd_storm_bottom (rpos (init 0))) / real RAND_MAX \<and>
   rnd_storm_bottom (rpos (init 0) + 2) mod 2 \<noteq> 0 \<and>
   o_h (last (obs (addObstacle rnd_storm_bottom 5 (init 0)))) = 170 \<and>
   o_y (last (obs (addObstacle rnd_storm_bottom 5 (init 0)))) +
     o_h (last (obs (addObstacle rnd_storm_bottom 5 (init 0)))) = 460"
proof -
  have len: "length (obs (init 0)) < 128" and k: "rpos (init 0) = 0"
    by (simp_all add: init_def)
  have c: "real (rnd_zero (rpos (init 0))) / real RAND_MAX < 0.55"
    by (simp add: k rnd_zero_def)
  have b: "0.55 \<le> real (rnd_bird (rpos (init 0))) / real RAND_MAX \<and>
      real (rnd_bird (rpos (init 0))) / real RAND_MAX < 0.85"
    by (simp add: k rnd_bird_def RAND_MAX_def)
  have t: "0.85 \<le> real (rnd_storm_top (rpos (init 0))) / real RAND_MAX"
    "rnd_storm_top (rpos (init 0) + 2) mod 2 = 0"
    by (simp_all add: k rnd_storm_top_def RAND_MAX_def)
  have u: "0.85 \<le> real (rnd_storm_bottom (rpos (init 0))) / real RAND_MAX"
    "rnd_storm_bottom (rpos (init 0) + 2) mod 2 \<noteq> 0"
    by (simp_all add: k rnd_storm_bottom_def RAND_MAX_def)
  note r1 = spawn_shapes [of "init 0" rnd_zero 5, THEN mp, OF len, THEN conjunct2,
      THEN conjunct1, THEN mp, OF c]
  note r2 = spawn_shapes [of "init 0" rnd_bird 5, THEN mp, OF len, THEN conjunct2,
      THEN conjunct2, THEN conjunct1, THEN mp, OF b]
  note r3 = spawn_shapes [of "init 0" rnd_storm_top 5, THEN mp, OF len, THEN conjunct2,
      THEN conjunct2, THEN conjunct2, THEN mp, OF t(1)]
  note r4 = spawn_shapes [of "init 0" rnd_storm_bottom 5, THEN mp, OF len, THEN conjunct2,
      THEN conjunct2, THEN conjunct2, THEN mp, OF u(1)]
  have "o_w (last (obs (addObstacle rnd_zero 5 (init 0)))) = 90"
    "o_h (last (obs (addObstacle rnd_zero 5 (init 0)))) = 50"
    "o_y (last (obs (addObstacle rnd_zero 5 (init 0)))) = 60"
    using r1 by (simp_all add: k rnd_zero_def)
  moreover have "o_w (last (obs (addObstacle rnd_bird 5 (init 0)))) = 44"
    "o_h (last (obs (addObstacle rnd_bird 5 (init 0)))) = 28"
    "o_y (last (obs (addObstacle rnd_bird 5 (init 0)))) = 260"
    using r2 by (simp_all add: k rnd_bird_def)
  moreover have "o_h (last (obs (addObstacle rnd_storm_top 5 (init 0)))) = 120"
    "o_y (last (obs (addObstacle rnd_storm_top 5 (init 0)))) = 40"
    using r3 t(2) by (simp_all add: k rnd_storm_top_def)
  moreover have "o_h (last (obs (addObstacle rnd_storm_bottom 5 (init 0)))) = 170"
    "o_y (last (obs (addObstacle rnd_storm_bottom 5 (init 0)))) +
       o_h (last (obs (addObstacle rnd_storm_bottom 5 (init 0)))) = 460"
    using r4 u(2) by (simp_all add: k rnd_storm_bottom_def GROUND_Y_def)
  ultimately show ?thesis using len c b t u by simp
qed

subsection \<open>C5: the altitude band\<close>

text \<open>
  C5. After any finite sequence of frames from the initial state the player's height lies in
  \<open>[60, 440]\<close>, where 440 is \<open>GROUND_Y - 20\<close>. A tick of an active session ends in
  the band from any height and any velocity, and the velocity it leaves is the one clamped to
  \<open>[-7, 7]\<close> before the position update: clamping the position changes no velocity.
\<close>

theorem altitude_band:
  "60 \<le> py (run rnd fs (init t0)) \<and> py (run rnd fs (init t0)) \<le> 440 \<and>
   real_of_int (GROUND_Y - 20) = 440 \<and>
   (\<not> gameOver g \<and> \<not> victory g \<longrightarrow>
      60 \<le> py (tick rnd dtms g) \<and> py (tick rnd dtms g) \<le> 440 \<and>
      vy (tick rnd dtms g) =
        max (- 7) (min 7 (vy g + 0.38 * (min 48 dtms / 16.6667)
                           - (if holding g then 0.8 * (min 48 dtms / 16.6667) else 0))))"
proof -
  have "60 \<le> py (init t0) \<and> py (init t0) \<le> 440"
    by (simp add: init_def H_def)
  then have "60 \<le> py (run rnd fs (init t0)) \<and> py (run rnd fs (init t0)) \<le> 440"
    by (rule py_run)
  moreover have "real_of_int (GROUND_Y - 20) = 440"
    by (simp add: GROUND_Y_def)
  moreover have "\<not> gameOver g \<and> \<not> victory g \<longrightarrow>
      60 \<le> py (tick rnd dtms g) \<and> py (tick rnd dtms g) \<le> 440 \<and>
      vy (tick rnd dtms g) =
        max (- 7) (min 7 (vy g + 0.38 * (min 48 dtms / 16.6667)
                           - (if holding g then 0.8 * (min 48 dtms / 16.6667) else 0)))"
    by (simp add: tick_player py_physics_phase vy_physics_phase)
  ultimately show ?thesis by blast
qed

theorem altitude_band_witness:
  "\<not> gameOver pinned_game \<and> \<not> victory pinned_game \<and> py pinned_game = 60 \<and>
   vy pinned_game = - 7 \<and>
   py (tick rnd_zero 16 pinned_game) = 60 \<and> vy (tick rnd_zero 16 pinned_game) = - 7"
proof -
  have h: "\<not> gameOver pinned_game \<and> \<not> victory pinned_game"
    by (simp add: pinned_game_def init_def)
  have v: "vy pinned_game = - 7" "holding pinned_game" "py pinned_game = 60"
    by (simp_all add: pinned_game_def)
  note r = altitude_band [of rnd_zero "[]" 0 pinned_game 16, THEN conjunct2, THEN conjunct2,
      THEN conjunct2, rule_format, OF h]
  have "vy (tick rnd_zero 16 pinned_game) = - 7"
    using r by (simp add: v)
  moreover have "py (tick rnd_zero 16 pinned_game) = 60"
    using h by (simp add: tick_player physics_phase_def Let_def v gravity_def thrust_def maxVy_def GROUND_Y_def)
  ultimately show ?thesis using h v by simp
qed

subsection \<open>C6: capacity of the obstacle store\<close>

text \<open>
  C6. After any finite sequence of frames from the initial state the store holds at most 128
  obstacles, and \<open>addObstacle\<close> on a store of exactly 128 obstacles returns the whole state
  as it was: same count, same contents, no draw consumed, and no error value exists in the
  function's result.
\<close>

theorem store_capacity:
  "length (obs (run rnd fs (init t0))) \<le> 128 \<and>
   (length (obs g) = 128 \<longrightarrow> addObstacle rnd speed g = g)"
proof
  show "length (obs (run rnd fs (init t0))) \<le> 128"
    by (rule length_run) (simp add: init_def)
  show "length (obs g) = 128 \<longrightarrow> addObstacle rnd speed g = g"
    by (simp add: addObstacle_def)
qed

theorem store_capacity_witness:
  "length (obs full_store) = 128 \<and> addObstacle rnd_zero 5 full_store = full_store"
  using store_capacity [of rnd_zero "[]" 0 full_store 5] by (simp add: full_store_def)

subsection \<open>C7: the spawn interval\<close>

text \<open>
  C7. The spawn interval starts at 1100. After any finite sequence of frames from the initial
  state it equals \<open>max 580 (1100 - (difficulty - 1) * 160)\<close> for the current difficulty and
  lies between 580 and 1100. Over any further frames whose events hold no Return key press
  (so no restart happens) it does not grow. The elapsed time of a frame is the value of an
  unsigned 32-bit difference, hence never negative.
\<close>

theorem spawn_interval:
  "spawnMs (init t0) = 1100 \<and>
   spawnMs (run rnd fs (init t0)) =
     max 580 (1100 - (difficulty (run rnd fs (init t0)) - 1) * 160) \<and>
   580 \<le> spawnMs (run rnd fs (init t0)) \<and>
   spawnMs (run rnd fs (init t0)) \<le> 1100 \<and>
   ((\<forall>f\<in>set hs. SDL_KEYDOWN SDLK_RETURN \<notin> set (fst f)) \<longrightarrow>
      spawnMs (run rnd (fs @ hs) (init t0)) \<le> spawnMs (run rnd fs (init t0)))"
proof -
  let ?g = "run rnd fs (init t0)"
  have inv: "spawn_inv ?g"
    by (intro spawn_inv_run spawn_inv_init)
  have a: "spawnMs (init t0) = 1100"
    by (simp add: init_def)
  have b: "spawnMs ?g = max 580 (1100 - (difficulty ?g - 1) * 160)"
    using inv by (simp add: spawn_inv_def)
  have c: "580 \<le> spawnMs ?g" "spawnMs ?g \<le> 1100"
    using inv by (simp_all add: spawn_inv_def)
  have d: "spawnMs (run rnd (fs @ hs) (init t0)) \<le> spawnMs ?g"
    if no: "\<forall>f\<in>set hs. SDL_KEYDOWN SDLK_RETURN \<notin> set (fst f)"
  proof -
    have "spawn_inv (run rnd hs ?g)"
      using inv by (rule spawn_inv_run)
    moreover have "difficulty ?g \<le> difficulty (run rnd hs ?g)"
      using no by (rule difficulty_run_mono)
    ultimately show ?thesis
      using inv by (simp add: run_append spawn_inv_def)
  qed
  from a b c d show ?thesis by blast
qed

theorem spawn_interval_witness:
  "spawnMs (run rnd_zero ([] @ quiet_frames) (init 0)) \<le> spawnMs (run rnd_zero [] (init 0))"
proof -
  have h: "\<forall>f\<in>set quiet_frames. SDL_KEYDOWN SDLK_RETURN \<notin> set (fst f)"
    by (simp add: quiet_frames_def)
  note r = spawn_interval [of 0 rnd_zero "[]" quiet_frames, THEN conjunct2, THEN conjunct2,
      THEN conjunct2, THEN conjunct2, THEN mp, OF h]
  from r show ?thesis .
qed

subsection \<open>C8: restart\<close>

text \<open>
  C8. The Return key pressed while the session is crashed or completed sets the remaining
  distance to \<open>KM_TOTAL\<close> (12000), empties the store, puts the player at the initial height
  with velocity zero, sets difficulty, spawn interval and spawn timer to their initial values
  and clears both end flags; pressed while the session is active it changes nothing.
\<close>

theorem restart_resets:
  "(gameOver g \<or> victory g \<longrightarrow>
      kmLeft (handle_event (SDL_KEYDOWN SDLK_RETURN) g) = KM_TOTAL \<and>
      KM_TOTAL = 12000 \<and>
      obs (handle_event (SDL_KEYDOWN SDLK_RETURN) g) = [] \<and>
      py (handle_event (SDL_KEYDOWN SDLK_RETURN) g) = py (init t0) \<and>
      vy (handle_event (SDL_KEYDOWN SDLK_RETURN) g) = 0 \<and>
      difficulty (handle_event (SDL_KEYDOWN SDLK_RETURN) g) = difficulty (init t0) \<and>
      spawnMs (handle_event (SDL_KEYDOWN SDLK_RETURN) g) = spawnMs (init t0) \<and>
      spawnTimer (handle_event (SDL_KEYDOWN SDLK_RETURN) g) = spawnTimer (init t0) \<and>
      \<not> gameOver (handle_event (SDL_KEYDOWN SDLK_RETURN) g) \<and>
      \<not> victory (handle_event (SDL_KEYDOWN SDLK_RETURN) g)) \<and>
   (\<not> gameOver g \<and> \<not> victory g \<longrightarrow> handle_event (SDL_KEYDOWN SDLK_RETURN) g = g)"
  by (simp add: init_def KM_TOTAL_def)

theorem restart_resets_witness:
  "gameOver crashed_game \<and>
   kmLeft (handle_event (SDL_KEYDOWN SDLK_RETURN) crashed_game) = 12000 \<and>
   obs (handle_event (SDL_KEYDOWN SDLK_RETURN) crashed_game) = [] \<and>
   py (handle_event (SDL_KEYDOWN SDLK_RETURN) crashed_game) = 270 \<and>
   vy (handle_event (SDL_KEYDOWN SDLK_RETURN) crashed_game) = 0 \<and>
   difficulty (handle_event (SDL_KEYDOWN SDLK_RETURN) crashed_game) = 1 \<and>
   spawnMs (handle_event (SDL_KEYDOWN SDLK_RETURN) crashed_game) = 1100 \<and>
   spawnTimer (handle_event (SDL_KEYDOWN SDLK_RETURN) crashed_game) = 0 \<and>
   \<not> gameOver (handle_event (SDL_KEYDOWN SDLK_RETURN) crashed_game) \<and>
   \<not> victory (handle_event (SDL_KEYDOWN SDLK_RETURN) crashed_game) \<and>
   \<not> gameOver (init 0) \<and> \<not> victory (init 0) \<and>
   handle_event (SDL_KEYDOWN SDLK_RETURN) (init 0) = init 0"
proof -
  have h1: "gameOver crashed_game \<or> victory crashed_game"
    by (simp add: crashed_game_def)
  have h2: "\<not> gameOver (init 0) \<and> \<not> victory (init 0)"
    by (simp add: init_def)
  have i: "py (init 0) = 270" "difficulty (init 0) = 1" "spawnMs (init 0) = 1100"
    "spawnTimer (init 0) = 0" "KM_TOTAL = 12000"
    by (simp_all add: init_def H_def KM_TOTAL_def)
  have g: "gameOver crashed_game" by (simp add: crashed_game_def)
  note r1 = restart_resets [of crashed_game 0, THEN conjunct1, rule_format, OF h1]
  note r2 = restart_resets [of "init 0" 0, THEN conjunct2, rule_format, OF h2]
  show ?thesis
    using g h2 r1 r2 unfolding i by blast
qed

subsection \<open>C9: the progress fraction\<close>

text \<open>
  C9. A tick with non-negative elapsed time on a state whose remaining distance lies in
  \<open>[0, KM_TOTAL]\<close> never lowers the progress fraction and keeps the remaining distance in
  that range; in the tick that sets the completion flag the remaining distance becomes exactly
  zero and the progress fraction exactly one. Along a run from the initial state the same
  holds frame by frame: the remaining distance stays in range, progress does not fall over
  frames without a restart, and whenever the completion flag is set the progress is one.
\<close>

theorem progress_monotone:
  "(0 \<le> dtms \<and> 0 \<le> kmLeft g \<and> kmLeft g \<le> KM_TOTAL \<longrightarrow>
      progress g \<le> progress (tick rnd dtms g) \<and>
      progress (tick rnd dtms g) \<le> 1 \<and>
      0 \<le> kmLeft (tick rnd dtms g) \<and> kmLeft (tick rnd dtms g) \<le> KM_TOTAL \<and>
      (\<not> victory g \<and> victory (tick rnd dtms g) \<longrightarrow>
         kmLeft (tick rnd dtms g) = 0 \<and> progress (tick rnd dtms g) = 1)) \<and>
   0 \<le> kmLeft (run rnd fs (init t0)) \<and> kmLeft (run rnd fs (init t0)) \<le> KM_TOTAL \<and>
   (victory (run rnd fs (init t0)) \<longrightarrow> progress (run rnd fs (init t0)) = 1) \<and>
   ((\<forall>f\<in>set hs. SDL_KEYDOWN SDLK_RETURN \<notin> set (fst f)) \<longrightarrow>
      progress (run rnd fs (init t0)) \<le> progress (run rnd (fs @ hs) (init t0)))"
proof -
  have a: "progress g \<le> progress (tick rnd dtms g) \<and>
      progress (tick rnd dtms g) \<le> 1 \<and>
      0 \<le> kmLeft (tick rnd dtms g) \<and> kmLeft (tick rnd dtms g) \<le> KM_TOTAL \<and>
      (\<not> victory g \<and> victory (tick rnd dtms g) \<longrightarrow>
         kmLeft (tick rnd dtms g) = 0 \<and> progress (tick rnd dtms g) = 1)"
    if h: "0 \<le> dtms \<and> 0 \<le> kmLeft g \<and> kmLeft g \<le> KM_TOTAL"
  proof -
    from h have h1: "0 \<le> dtms" and h2: "0 \<le> kmLeft g" and h3: "kmLeft g \<le> KM_TOTAL"
      by simp_all
    note t = tick_km [OF h1 h2 h3, of rnd]
    have "progress g \<le> progress (tick rnd dtms g)"
      using t(2) by (rule progress_mono)
    moreover have "progress (tick rnd dtms g) \<le> 1"
      using t(1) by (simp add: progress_def KM_TOTAL_def)
    moreover have "kmLeft (tick rnd dtms g) \<le> KM_TOTAL"
      using t(2) h3 by simp
    moreover have "kmLeft (tick rnd dtms g) = 0 \<and> progress (tick rnd dtms g) = 1"
      if "\<not> victory g \<and> victory (tick rnd dtms g)"
      using t(3) that by (simp add: progress_def KM_TOTAL_def)
    ultimately show ?thesis using t(1) by blast
  qed
  let ?g = "run rnd fs (init t0)"
  have inv: "km_inv ?g"
    by (intro km_inv_run km_inv_init)
  have b: "0 \<le> kmLeft ?g" "kmLeft ?g \<le> KM_TOTAL"
    using inv by (simp_all add: km_inv_def)
  have c: "progress ?g = 1" if "victory ?g"
    using inv that by (simp add: km_inv_def progress_def KM_TOTAL_def)
  have d: "progress ?g \<le> progress (run rnd (fs @ hs) (init t0))"
    if "\<forall>f\<in>set hs. SDL_KEYDOWN SDLK_RETURN \<notin> set (fst f)"
    unfolding run_append using inv that by (intro progress_mono kmLeft_run_mono)
  from a b c d show ?thesis by blast
qed

theorem progress_monotone_witness:
  "0 \<le> (16::real) \<and> 0 \<le> kmLeft near_finish \<and> kmLeft near_finish \<le> KM_TOTAL \<and>
   \<not> victory near_finish \<and> victory (tick rnd_zero 16 near_finish) \<and>
   kmLeft (tick rnd_zero 16 near_finish) = 0 \<and> progress (tick rnd_zero 16 near_finish) = 1 \<and>
   victory (run rnd_zero long_frame (init 0)) \<and>
   progress (run rnd_zero long_frame (init 0)) = 1 \<and>
   progress (run rnd_zero long_frame (init 0))
     \<le> progress (run rnd_zero (long_frame @ quiet_frames) (init 0))"
proof -
  have h1: "0 \<le> (16::real) \<and> 0 \<le> kmLeft near_finish \<and> kmLeft near_finish \<le> KM_TOTAL"
    by (simp add: near_finish_def KM_TOTAL_def)
  have h2: "\<not> victory near_finish \<and> victory (tick rnd_zero 16 near_finish)"
    by (simp add: tick_km_active near_finish_def init_def)
       (simp add: progress_phase_def Let_def KM_TOTAL_def)
  have h3: "victory (run rnd_zero long_frame (init 0))"
    by (simp add: long_frame_def frame_def Let_def tick_km_active init_def)
       (simp add: progress_phase_def Let_def KM_TOTAL_def)
  have h4: "\<forall>f\<in>set quiet_frames. SDL_KEYDOWN SDLK_RETURN \<notin> set (fst f)"
    by (simp add: quiet_frames_def)
  note r = progress_monotone [of 16 near_finish rnd_zero long_frame 0 quiet_frames]
  from r h1 h2 have "kmLeft (tick rnd_zero 16 near_finish) = 0 \<and>
      progress (tick rnd_zero 16 near_finish) = 1"
    by blast
  moreover from r h3 have "progress (run rnd_zero long_frame (init 0)) = 1"
    by blast
  moreover from r h4 have "progress (run rnd_zero long_frame (init 0))
     \<le> progress (run rnd_zero (long_frame @ quiet_frames) (init 0))"
    by blast
  ultimately show ?thesis using h1 h2 h3 by blast
qed

subsection \<open>C10: one spawn per tick\<close>

text \<open>
  C10. Whatever the elapsed time, a tick leaves at most one obstacle more than it found and
  makes at most the five draws of a single call of \<open>addObstacle\<close>: the store of an active
  session after the tick is the old store with at most one obstacle appended, advanced and
  culled. When the advanced timer reaches the spawn interval the timer becomes exactly zero,
  so the overshoot is dropped; when it does not, the timer is the sum, no draw is made and
  nothing is added. From a timer at zero, a tick shorter than the spawn interval spawns
  nothing.
\<close>

theorem single_spawn:
  "length (obs (tick rnd dtms g)) \<le> length (obs g) + 1 \<and>
   rpos (tick rnd dtms g) \<le> rpos g + 5 \<and>
   (\<not> gameOver g \<and> \<not> victory g \<longrightarrow>
      (\<exists>bs. length bs \<le> 1 \<and> obs (tick rnd dtms g) = cull (advance (obs g @ bs)))) \<and>
   (\<not> gameOver g \<and> \<not> victory g \<and> spawnMs (tick rnd dtms g) \<le> spawnTimer g + dtms \<longrightarrow>
      spawnTimer (tick rnd dtms g) = 0) \<and>
   (\<not> gameOver g \<and> \<not> victory g \<and> spawnTimer g + dtms < spawnMs (tick rnd dtms g) \<longrightarrow>
      spawnTimer (tick rnd dtms g) = spawnTimer g + dtms \<and>
      rpos (tick rnd dtms g) = rpos g \<and>
      length (obs (tick rnd dtms g)) \<le> length (obs g)) \<and>
   (spawnTimer g = 0 \<and> dtms < spawnMs (tick rnd dtms g) \<longrightarrow>
      rpos (tick rnd dtms g) = rpos g \<and> length (obs (tick rnd dtms g)) \<le> length (obs g))"
proof -
  let ?g2 = "physics_phase (min 48 dtms / 16.6667) (difficulty_phase dtms g)"
  have a: "length (obs (tick rnd dtms g)) \<le> length (obs g) + 1"
    by (rule length_tick_Suc)
  have b: "rpos (tick rnd dtms g) \<le> rpos g + 5"
    by (rule rpos_tick)
  have c: "\<exists>bs. length bs \<le> 1 \<and> obs (tick rnd dtms g) = cull (advance (obs g @ bs))"
    if "\<not> gameOver g \<and> \<not> victory g"
  proof -
    from that have act: "\<not> gameOver g" "\<not> victory g" by simp_all
    obtain bs where "length bs \<le> 1" "obs (spawn_phase rnd dtms ?g2) = obs ?g2 @ bs"
      using spawn_phase_obs by blast
    then show ?thesis
      by (intro exI [of _ bs]) (simp add: tick_spawn(3) [OF act] phase_fields)
  qed
  have d: "spawnTimer (tick rnd dtms g) = 0"
    if "\<not> gameOver g \<and> \<not> victory g \<and> spawnMs (tick rnd dtms g) \<le> spawnTimer g + dtms"
  proof -
    from that have act: "\<not> gameOver g" "\<not> victory g" by simp_all
    from that show ?thesis
      by (simp add: tick_spawn(1,4) [OF act] spawn_phase_timer phase_fields)
  qed
  have e: "spawnTimer (tick rnd dtms g) = spawnTimer g + dtms \<and>
      rpos (tick rnd dtms g) = rpos g \<and>
      length (obs (tick rnd dtms g)) \<le> length (obs g)"
    if "\<not> gameOver g \<and> \<not> victory g \<and> spawnTimer g + dtms < spawnMs (tick rnd dtms g)"
  proof -
    from that have act: "\<not> gameOver g" "\<not> victory g" by simp_all
    from that have "spawnTimer (tick rnd dtms g) = spawnTimer g + dtms"
      by (simp add: tick_spawn(1,4) [OF act] spawn_phase_timer phase_fields)
    then show ?thesis using tick_idle [of g dtms rnd] that by simp
  qed
  have f: "rpos (tick rnd dtms g) = rpos g \<and> length (obs (tick rnd dtms g)) \<le> length (obs g)"
    if "spawnTimer g = 0 \<and> dtms < spawnMs (tick rnd dtms g)"
    using that by (intro tick_idle) simp
  from a b c d e f show ?thesis by blast
qed

theorem single_spawn_witness:
  "\<not> gameOver (init 0) \<and> \<not> victory (init 0) \<and>
   spawnMs (tick rnd_zero 5000 (init 0)) \<le> spawnTimer (init 0) + 5000 \<and>
   spawnTimer (tick rnd_zero 5000 (init 0)) = 0 \<and>
   length (obs (tick rnd_zero 5000 (init 0))) = 1 \<and>
   spawnTimer (init 0) = 0 \<and>
   500 < spawnMs (tick rnd_zero 500 (init 0)) \<and>
   spawnTimer (tick rnd_zero 500 (init 0)) = 500 \<and>
   rpos (tick rnd_zero 500 (init 0)) = rpos (init 0) \<and>
   length (obs (tick rnd_zero 500 (init 0))) \<le> length (obs (init 0))"
proof -
  have act: "\<not> gameOver (init 0)" "\<not> victory (init 0)"
    by (simp_all add: init_def)
  have t0: "spawnTimer (init 0) = 0" "difficulty (init 0) = 1"
    by (simp_all add: init_def)
  have h1: "spawnMs (tick rnd_zero 5000 (init 0)) \<le> spawnTimer (init 0) + 5000"
    by (simp add: tick_difficulty [OF act] t0)
  have h2: "500 < spawnMs (tick rnd_zero 500 (init 0))"
    by (simp add: tick_difficulty [OF act] t0)
  have n: "length (obs (tick rnd_zero 5000 (init 0))) = 1"
    by (simp add: tick_spawn(3) [OF act] phase_fields)
       (simp add: spawn_phase_def Let_def phase_defs addObstacle_def init_def rnd_zero_def
          consts_defs)
  note r = single_spawn [of rnd_zero 5000 "init 0"]
  note q = single_spawn [of rnd_zero 500 "init 0"]
  from r act h1 have "spawnTimer (tick rnd_zero 5000 (init 0)) = 0"
    by blast
  moreover from q act h2 t0(1)
  have "spawnTimer (tick rnd_zero 500 (init 0)) = spawnTimer (init 0) + 500 \<and>
      rpos (tick rnd_zero 500 (init 0)) = rpos (init 0) \<and>
      length (obs (tick rnd_zero 500 (init 0))) \<le> length (obs (init 0))"
    by simp
  ultimately show ?thesis using act h1 h2 n t0(1) by simp
qed

end
